theory Spec2Isabelle
  imports Complex_Main "HOL-Library.Sublist"
begin

section \<open>The SpreadsheetML converter of xml-to-excel.py\<close>

text \<open>
  The program reads one SpreadsheetML document and writes one workbook. Everything it
  computes is in \<^verbatim>\<open>parse_excel_xml\<close>: for each worksheet it rebuilds the rows of the
  table (sparse cell indices, typed values), drops the rows without a truthy value, pads
  the others to one width and turns the first of them into column headers.

  The model starts after the XML library has done its work: a document is the list that
  \<^verbatim>\<open>root.findall('.//Worksheet')\<close> returns, a table the list of its \<^verbatim>\<open>findall('.//Row')\<close>,
  a row the list of its \<^verbatim>\<open>findall('.//Cell')\<close>, and a cell carries its \<^verbatim>\<open>Index\<close> attribute
  and the first \<^verbatim>\<open>Data\<close> element below it. Python's \<^verbatim>\<open>None\<close> is \<open>None\<close>.
\<close>

subsection \<open>The source tree\<close>

record data_elem =
  data_text :: "string option"
  data_type :: "string option"

record cell_elem =
  cell_index :: "string option"
  cell_data :: "data_elem option"

type_synonym row_elem = "cell_elem list"

type_synonym table_elem = "row_elem list"

record worksheet_elem =
  ws_name :: "string option"
  ws_table :: "table_elem option"

subsection \<open>Values\<close>

text \<open>
  A rendered cell value is a Python \<^verbatim>\<open>str\<close> or a Python \<^verbatim>\<open>float\<close>. The type \<open>'f\<close> stands
  for the floats; its \<open>0\<close> is \<^verbatim>\<open>0.0\<close> (and \<^verbatim>\<open>-0.0\<close>, which Python compares equal to it),
  the only float that is falsy. The builtins \<^verbatim>\<open>int\<close>, \<^verbatim>\<open>float\<close> and \<^verbatim>\<open>str\<close> on a float are
  parameters of the model: \<open>int_of\<close> and \<open>float_of\<close> return \<open>None\<close> where the builtin
  raises \<^verbatim>\<open>ValueError\<close>, the only exception either raises on a string.
\<close>

datatype 'f cell_val = Str string | Num 'f

datatype py_error = ValueError

fun truthy :: "('f::zero) cell_val \<Rightarrow> bool" where
  "truthy (Str s) = (s \<noteq> [])"
| "truthy (Num x) = (x \<noteq> 0)"

fun str_val :: "('f \<Rightarrow> string) \<Rightarrow> 'f cell_val \<Rightarrow> string" where
  "str_val float_str (Str s) = s"
| "str_val float_str (Num x) = float_str x"

subsection \<open>One cell\<close>

text \<open>
  Lines 48 to 50: \<^verbatim>\<open>while current_index < index_val: row_data.append(""); current_index += 1\<close>.
  The state of the row under construction is the pair of \<^verbatim>\<open>row_data\<close> and
  \<^verbatim>\<open>current_index\<close>.
\<close>

function fill_gaps :: "int \<Rightarrow> 'f cell_val list \<times> int \<Rightarrow> 'f cell_val list \<times> int" where
  "fill_gaps index_val (row_data, current_index) =
     (if current_index < index_val
      then fill_gaps index_val (row_data @ [Str []], current_index + 1)
      else (row_data, current_index))"
  by pat_completeness auto
termination
  by (relation "measure (\<lambda>(index_val, row_data, current_index). nat (index_val - current_index))")
    auto

declare fill_gaps.simps [simp del]

text \<open>
  Lines 44 to 50. An absent or empty \<^verbatim>\<open>Index\<close> attribute is falsy and skips the block;
  otherwise \<^verbatim>\<open>int(cell_index)\<close> is evaluated, and its \<^verbatim>\<open>ValueError\<close> leaves the function
  through the handler of line 106.
\<close>

definition apply_index ::
  "(string \<Rightarrow> int option) \<Rightarrow> string option \<Rightarrow> 'f cell_val list \<times> int
     \<Rightarrow> py_error + 'f cell_val list \<times> int" where
  "apply_index int_of idx st =
     (case idx of
        None \<Rightarrow> Inr st
      | Some s \<Rightarrow>
          if s = [] then Inr st
          else (case int_of s of
                  None \<Rightarrow> Inl ValueError
                | Some n \<Rightarrow> Inr (fill_gaps (n - 1) st)))"

text \<open>
  Lines 53 to 68: the text of the \<^verbatim>\<open>Data\<close> element (\<^verbatim>\<open>""\<close> when the element or its text
  is missing), its \<^verbatim>\<open>Type\<close> attribute (\<^verbatim>\<open>'String'\<close> when missing), and the conversion.
  \<^verbatim>\<open>'T00:00:00' in value\<close> is \<^const>\<open>sublist\<close>; \<^verbatim>\<open>value.split('T')[0]\<close> is the text before
  the first \<^verbatim>\<open>T\<close>.
\<close>

definition cell_text :: "data_elem option \<Rightarrow> string" where
  "cell_text d =
     (case d of
        None \<Rightarrow> []
      | Some e \<Rightarrow> (case data_text e of None \<Rightarrow> [] | Some t \<Rightarrow> t))"

definition cell_type :: "data_elem option \<Rightarrow> string" where
  "cell_type d =
     (case d of
        None \<Rightarrow> ''String''
      | Some e \<Rightarrow> (case data_type e of None \<Rightarrow> ''String'' | Some t \<Rightarrow> t))"

definition cell_value :: "(string \<Rightarrow> 'f option) \<Rightarrow> data_elem option \<Rightarrow> ('f::zero) cell_val" where
  "cell_value float_of d =
     (let v = cell_text d; data_type = cell_type d in
      if data_type = ''Number'' then
        (if v \<noteq> [] then (case float_of v of Some x \<Rightarrow> Num x | None \<Rightarrow> Num 0) else Num 0)
      else if data_type = ''DateTime'' then
        (if v \<noteq> [] \<and> sublist ''T00:00:00'' v
         then Str (takeWhile (\<lambda>c. c \<noteq> CHR ''T'') v)
         else Str v)
      else Str v)"

text \<open>Lines 42 to 71, the body of the loop over the cells of a row.\<close>

definition process_cell ::
  "(string \<Rightarrow> int option) \<Rightarrow> (string \<Rightarrow> 'f option) \<Rightarrow> 'f cell_val list \<times> int \<Rightarrow> cell_elem
     \<Rightarrow> py_error + ('f::zero) cell_val list \<times> int" where
  "process_cell int_of float_of st c =
     (case apply_index int_of (cell_index c) st of
        Inl e \<Rightarrow> Inl e
      | Inr (row_data, current_index) \<Rightarrow>
          Inr (row_data @ [cell_value float_of (cell_data c)], current_index + 1))"

subsection \<open>One row, one table\<close>

fun process_cells ::
  "(string \<Rightarrow> int option) \<Rightarrow> (string \<Rightarrow> 'f option) \<Rightarrow> 'f cell_val list \<times> int \<Rightarrow> cell_elem list
     \<Rightarrow> py_error + ('f::zero) cell_val list \<times> int" where
  "process_cells int_of float_of st [] = Inr st"
| "process_cells int_of float_of st (c # cs) =
     (case process_cell int_of float_of st c of
        Inl e \<Rightarrow> Inl e
      | Inr st' \<Rightarrow> process_cells int_of float_of st' cs)"

text \<open>Lines 38 to 71: a row starts from \<^verbatim>\<open>row_data = []\<close> and \<^verbatim>\<open>current_index = 0\<close>.\<close>

definition build_row ::
  "(string \<Rightarrow> int option) \<Rightarrow> (string \<Rightarrow> 'f option) \<Rightarrow> row_elem \<Rightarrow> py_error + ('f::zero) cell_val list" where
  "build_row int_of float_of row =
     (case process_cells int_of float_of ([], 0) row of
        Inl e \<Rightarrow> Inl e
      | Inr (row_data, current_index) \<Rightarrow> Inr row_data)"

text \<open>
  Lines 37 to 76, the loop over the rows, on the pair of \<^verbatim>\<open>rows_data\<close> and \<^verbatim>\<open>max_cols\<close>.
  \<^verbatim>\<open>any(x for x in row_data if x)\<close> holds when some value of the row is truthy.
\<close>

fun process_rows ::
  "(string \<Rightarrow> int option) \<Rightarrow> (string \<Rightarrow> 'f option) \<Rightarrow> 'f cell_val list list \<times> nat \<Rightarrow> table_elem
     \<Rightarrow> py_error + ('f::zero) cell_val list list \<times> nat" where
  "process_rows int_of float_of st [] = Inr st"
| "process_rows int_of float_of (rows_data, max_cols) (row # rows) =
     (case build_row int_of float_of row of
        Inl e \<Rightarrow> Inl e
      | Inr row_data \<Rightarrow>
          process_rows int_of float_of
            (if list_ex truthy row_data
             then (rows_data @ [row_data], max max_cols (length row_data))
             else (rows_data, max_cols))
            rows)"

text \<open>Lines 79 to 81.\<close>

definition pad_row :: "nat \<Rightarrow> 'f cell_val list \<Rightarrow> 'f cell_val list" where
  "pad_row max_cols r =
     (if length r < max_cols then r @ replicate (max_cols - length r) (Str []) else r)"

text \<open>Lines 33 to 81: the normalized table of a \<^verbatim>\<open>Table\<close> element.\<close>

definition normalize_table ::
  "(string \<Rightarrow> int option) \<Rightarrow> (string \<Rightarrow> 'f option) \<Rightarrow> table_elem
     \<Rightarrow> py_error + ('f::zero) cell_val list list" where
  "normalize_table int_of float_of table =
     (case process_rows int_of float_of ([], 0) table of
        Inl e \<Rightarrow> Inl e
      | Inr (rows_data, max_cols) \<Rightarrow> Inr (map (pad_row max_cols) rows_data))"

subsection \<open>Headers and sheets\<close>

text \<open>\<^verbatim>\<open>str\<close> of a natural number, for \<^verbatim>\<open>f"Column{i+1}"\<close>.\<close>

definition digit_char :: "nat \<Rightarrow> char" where
  "digit_char d = ''0123456789'' ! d"

fun str_nat :: "nat \<Rightarrow> string" where
  "str_nat n = (if n < 10 then [digit_char n] else str_nat (n div 10) @ [digit_char (n mod 10)])"

declare str_nat.simps [simp del]

text \<open>Line 88: \<^verbatim>\<open>[str(h) if h else f"Column{i+1}" for i, h in enumerate(headers)]\<close>.\<close>

definition header_name :: "('f \<Rightarrow> string) \<Rightarrow> nat \<Rightarrow> ('f::zero) cell_val \<Rightarrow> string" where
  "header_name float_str i h =
     (if truthy h then str_val float_str h else ''Column'' @ str_nat (i + 1))"

definition make_headers :: "('f \<Rightarrow> string) \<Rightarrow> ('f::zero) cell_val list \<Rightarrow> string list" where
  "make_headers float_str headers =
     map (\<lambda>(i, h). header_name float_str i h) (enumerate 0 headers)"

text \<open>The data frame of line 91: its column labels and its rows.\<close>

record 'f dataframe =
  columns :: "string list"
  df_rows :: "'f cell_val list list"

text \<open>
  \<^verbatim>\<open>worksheets[sheet_name] = df\<close> on a Python dict, which keeps its keys in the order of
  their first insertion: a new name goes to the end, a known name keeps its place and
  gets the new value.
\<close>

fun dict_set :: "'k \<Rightarrow> 'v \<Rightarrow> ('k \<times> 'v) list \<Rightarrow> ('k \<times> 'v) list" where
  "dict_set k v [] = [(k, v)]"
| "dict_set k v (p # ps) = (if fst p = k then (k, v) # ps else p # dict_set k v ps)"

definition sheet_name :: "worksheet_elem \<Rightarrow> string" where
  "sheet_name ws = (case ws_name ws of None \<Rightarrow> ''Sheet'' | Some n \<Rightarrow> n)"

text \<open>Lines 84 to 92: a table of at least two rows becomes a data frame.\<close>

definition store_sheet ::
  "('f \<Rightarrow> string) \<Rightarrow> string \<Rightarrow> ('f::zero) cell_val list list
     \<Rightarrow> (string \<times> 'f dataframe) list \<Rightarrow> (string \<times> 'f dataframe) list" where
  "store_sheet float_str name rows_data worksheets =
     (case rows_data of
        h # r # rs \<Rightarrow>
          dict_set name \<lparr>columns = make_headers float_str h, df_rows = r # rs\<rparr> worksheets
      | _ \<Rightarrow> worksheets)"

text \<open>Lines 25 to 92, the loop over the worksheets; one without a table is skipped.\<close>

fun process_worksheets ::
  "(string \<Rightarrow> int option) \<Rightarrow> (string \<Rightarrow> 'f option) \<Rightarrow> ('f \<Rightarrow> string)
     \<Rightarrow> (string \<times> 'f dataframe) list \<Rightarrow> worksheet_elem list
     \<Rightarrow> py_error + (string \<times> ('f::zero) dataframe) list" where
  "process_worksheets int_of float_of float_str worksheets [] = Inr worksheets"
| "process_worksheets int_of float_of float_str worksheets (ws # wss) =
     (case ws_table ws of
        None \<Rightarrow> process_worksheets int_of float_of float_str worksheets wss
      | Some table \<Rightarrow>
          (case normalize_table int_of float_of table of
             Inl e \<Rightarrow> Inl e
           | Inr rows_data \<Rightarrow>
               process_worksheets int_of float_of float_str
                 (store_sheet float_str (sheet_name ws) rows_data worksheets) wss))"

subsection \<open>The run\<close>

text \<open>
  What a run leaves behind: the sheets written to the output file, in order (\<open>None\<close>
  when no file is written), the line it prints, and the value it returns. The three
  lines are \<^verbatim>\<open>Successfully converted {xml_file} to {xlsx_file}\<close>,
  \<^verbatim>\<open>No data found in {xml_file}\<close> and \<^verbatim>\<open>Error converting XML to Excel: {str(e)}\<close>.
  The writer of the output file is taken to succeed: an exception of the spreadsheet
  library while writing would leave through the handler of line 106, and is not modelled.
\<close>

datatype report =
  Successfully_converted string string
| No_data_found string
| Error_converting py_error

record 'f outcome =
  written :: "(string \<times> 'f dataframe) list option"
  printed :: report
  returned :: bool

definition parse_excel_xml ::
  "(string \<Rightarrow> int option) \<Rightarrow> (string \<Rightarrow> 'f option) \<Rightarrow> ('f \<Rightarrow> string)
     \<Rightarrow> string \<Rightarrow> string \<Rightarrow> worksheet_elem list \<Rightarrow> ('f::zero) outcome" where
  "parse_excel_xml int_of float_of float_str xml_file xlsx_file doc =
     (case process_worksheets int_of float_of float_str [] doc of
        Inl e \<Rightarrow> \<lparr>written = None, printed = Error_converting e, returned = False\<rparr>
      | Inr worksheets \<Rightarrow>
          if worksheets \<noteq> []
          then \<lparr>written = Some worksheets,
                printed = Successfully_converted xml_file xlsx_file, returned = True\<rparr>
          else \<lparr>written = None, printed = No_data_found xml_file, returned = False\<rparr>)"

subsection \<open>The builtins on concrete inputs\<close>

text \<open>
  \<^verbatim>\<open>int\<close> on an ASCII string, base 10: white space around the literal (space, tab, line
  feed, vertical tab, form feed, carriage return) is dropped, then comes an optional sign
  and digits, single underscores allowed between digits. It is
  used to run the model on concrete documents; the theorems about all documents take
  the conversion as a parameter. (CPython also accepts non-ASCII white space and digits
  and, from 3.11 on, rejects literals of more than 4300 digits; neither occurs below.)
\<close>

definition py_isspace :: "char \<Rightarrow> bool" where
  "py_isspace c \<longleftrightarrow>
     c \<in> set [CHR 0x09, CHR 0x0A, CHR 0x0B, CHR 0x0C, CHR 0x0D, CHR '' '']"

definition py_strip :: "string \<Rightarrow> string" where
  "py_strip s = rev (dropWhile py_isspace (rev (dropWhile py_isspace s)))"

definition is_digit :: "char \<Rightarrow> bool" where
  "is_digit c \<longleftrightarrow> c \<in> set ''0123456789''"

definition digit_val :: "char \<Rightarrow> nat" where
  "digit_val c = of_char c - 48"

fun digits_from :: "nat \<Rightarrow> string \<Rightarrow> nat option" where
  "digits_from a [] = Some a"
| "digits_from a [c] = (if is_digit c then Some (10 * a + digit_val c) else None)"
| "digits_from a (c # d # cs) =
     (if c = CHR ''_'' then
        (if is_digit d then digits_from (10 * a + digit_val d) cs else None)
      else if is_digit c then digits_from (10 * a + digit_val c) (d # cs)
      else None)"

definition py_digits :: "string \<Rightarrow> nat option" where
  "py_digits s =
     (case s of
        [] \<Rightarrow> None
      | c # cs \<Rightarrow> if is_digit c then digits_from (digit_val c) cs else None)"

definition py_int :: "string \<Rightarrow> int option" where
  "py_int s =
     (case py_strip s of
        [] \<Rightarrow> None
      | c # cs \<Rightarrow>
          if c = CHR ''-'' then map_option (\<lambda>n. - int n) (py_digits cs)
          else if c = CHR ''+'' then map_option int (py_digits cs)
          else map_option int (py_digits (c # cs)))"

text \<open>
  \<^verbatim>\<open>float\<close> and \<^verbatim>\<open>str\<close> on the texts and numbers of the examples below, with the reals
  for the floats: \<^verbatim>\<open>float("30")\<close> is \<^verbatim>\<open>30.0\<close>, \<^verbatim>\<open>float("0")\<close> is \<^verbatim>\<open>0.0\<close>, and the other texts
  used there (\<^verbatim>\<open>abc\<close>, \<^verbatim>\<open>n/a\<close>) make \<^verbatim>\<open>float\<close> raise \<^verbatim>\<open>ValueError\<close>.
\<close>

definition sample_float :: "string \<Rightarrow> real option" where
  "sample_float = [''30'' \<mapsto> 30, ''0'' \<mapsto> 0]"

definition sample_str :: "real \<Rightarrow> string" where
  "sample_str x = (if x = 30 then ''30.0'' else ''0.0'')"

subsection \<open>Example documents\<close>

text \<open>A cell without \<^verbatim>\<open>Index\<close> attribute, with a \<^verbatim>\<open>Data\<close> element of the given type and text.\<close>

abbreviation plain_cell :: "string \<Rightarrow> string \<Rightarrow> cell_elem" where
  "plain_cell ty t \<equiv>
     \<lparr>cell_index = None, cell_data = Some \<lparr>data_text = Some t, data_type = Some ty\<rparr>\<rparr>"

text \<open>
  The round-trip scenario of the specification: one worksheet \<^verbatim>\<open>Data\<close> with the rows
  \<^verbatim>\<open>Name, Age\<close>, then \<^verbatim>\<open>Alice, 30\<close> (the age of type \<^verbatim>\<open>Number\<close>), then a blank row; and the
  data frame that is expected for it.
\<close>

definition roundtrip_doc :: "worksheet_elem list" where
  "roundtrip_doc =
     [\<lparr>ws_name = Some ''Data'',
       ws_table = Some
         [[\<lparr>cell_index = None, cell_data = Some \<lparr>data_text = Some ''Name'', data_type = Some ''String''\<rparr>\<rparr>,
           \<lparr>cell_index = None, cell_data = Some \<lparr>data_text = Some ''Age'', data_type = Some ''String''\<rparr>\<rparr>],
          [\<lparr>cell_index = None, cell_data = Some \<lparr>data_text = Some ''Alice'', data_type = Some ''String''\<rparr>\<rparr>,
           \<lparr>cell_index = None, cell_data = Some \<lparr>data_text = Some ''30'', data_type = Some ''Number''\<rparr>\<rparr>],
          [\<lparr>cell_index = None, cell_data = Some \<lparr>data_text = None, data_type = Some ''String''\<rparr>\<rparr>,
           \<lparr>cell_index = None, cell_data = None\<rparr>]]\<rparr>]"

definition roundtrip_frame :: "real dataframe" where
  "roundtrip_frame = \<lparr>columns = [''Name'', ''Age''], df_rows = [[Str ''Alice'', Num 30]]\<rparr>"

subsection \<open>Readable indices\<close>

text \<open>
  The \<^verbatim>\<open>Index\<close> attribute of a cell is readable when line 47 does not raise on it: it is
  absent, empty, or a text that \<^verbatim>\<open>int\<close> accepts.
\<close>

abbreviation index_readable :: "(string \<Rightarrow> int option) \<Rightarrow> cell_elem \<Rightarrow> bool" where
  "index_readable int_of c \<equiv>
     (case cell_index c of None \<Rightarrow> True | Some s \<Rightarrow> s = [] \<or> int_of s \<noteq> None)"


section \<open>Properties\<close>

subsection \<open>The decimal builtins\<close>

text \<open>
  \<^verbatim>\<open>int(str(n))\<close> is \<open>n\<close> for every natural number: the decimal rendering used for the
  column placeholders and the reading of an \<^verbatim>\<open>Index\<close> attribute agree.
\<close>

lemma digit_char_props:
  assumes "d < 10"
  shows "is_digit (digit_char d)" and "digit_val (digit_char d) = d"
    and "\<not> py_isspace (digit_char d)" and "digit_char d \<noteq> CHR ''_''"
    and "digit_char d \<noteq> CHR ''-''" and "digit_char d \<noteq> CHR ''+''"
proof -
  from assms have d: "d = 0 \<or> d = 1 \<or> d = 2 \<or> d = 3 \<or> d = 4 \<or> d = 5 \<or> d = 6 \<or> d = 7 \<or> d = 8 \<or> d = 9"
    by arith
  from d show "is_digit (digit_char d)" by (auto simp: digit_char_def is_digit_def)
  from d show "digit_val (digit_char d) = d" by (auto simp: digit_char_def digit_val_def)
  from d show "\<not> py_isspace (digit_char d)" by (auto simp: digit_char_def py_isspace_def)
  from d show "digit_char d \<noteq> CHR ''_''" by (auto simp: digit_char_def)
  from d show "digit_char d \<noteq> CHR ''-''" by (auto simp: digit_char_def)
  from d show "digit_char d \<noteq> CHR ''+''" by (auto simp: digit_char_def)
qed

lemma digits_from_digit:
  "d < 10 \<Longrightarrow> digits_from a (digit_char d # cs) = digits_from (10 * a + d) cs"
  by (cases cs) (simp_all add: digit_char_props)

lemma digits_from_str_nat:
  "digits_from a (str_nat n @ rest) = digits_from (a * 10 ^ length (str_nat n) + n) rest"
proof (induction n arbitrary: a rest rule: str_nat.induct)
  case (1 n)
  show ?case
  proof (cases "n < 10")
    case True
    then show ?thesis by (simp add: str_nat.simps[of n] digits_from_digit mult.commute)
  next
    case False
    have m: "n mod 10 < 10" by simp
    have "digits_from a (str_nat n @ rest)
        = digits_from a (str_nat (n div 10) @ digit_char (n mod 10) # rest)"
      using False by (simp add: str_nat.simps[of n])
    also have "\<dots> = digits_from (a * 10 ^ length (str_nat (n div 10)) + n div 10)
        (digit_char (n mod 10) # rest)"
      using 1[OF False] by simp
    also have "\<dots> = digits_from (10 * (a * 10 ^ length (str_nat (n div 10)) + n div 10) + n mod 10) rest"
      using m by (simp only: digits_from_digit)
    also have "10 * (a * 10 ^ length (str_nat (n div 10)) + n div 10) + n mod 10
        = a * 10 ^ length (str_nat n) + n"
      using False by (simp add: str_nat.simps[of n] algebra_simps)
    finally show ?thesis .
  qed
qed

lemma str_nat_first: "\<exists>d cs. d < 10 \<and> str_nat n = digit_char d # cs"
proof (induction n rule: str_nat.induct)
  case (1 n)
  show ?case
  proof (cases "n < 10")
    case True
    then show ?thesis by (auto simp: str_nat.simps[of n])
  next
    case False
    from 1[OF False] obtain d cs where "d < 10" "str_nat (n div 10) = digit_char d # cs" by blast
    with False show ?thesis by (auto simp: str_nat.simps[of n])
  qed
qed

lemma str_nat_last: "\<exists>d cs. d < 10 \<and> str_nat n = cs @ [digit_char d]"
proof (cases "n < 10")
  case True
  then have "n < 10 \<and> str_nat n = [] @ [digit_char n]" by (simp add: str_nat.simps[of n])
  then show ?thesis by blast
next
  case False
  then have "n mod 10 < 10 \<and> str_nat n = str_nat (n div 10) @ [digit_char (n mod 10)]"
    by (simp add: str_nat.simps[of n])
  then show ?thesis by blast
qed

lemma py_int_str_nat: "py_int (str_nat n) = Some (int n)"
proof -
  from str_nat_first[of n] obtain d cs where d: "d < 10" "str_nat n = digit_char d # cs" by blast
  from str_nat_last[of n] obtain e bs where e: "e < 10" "str_nat n = bs @ [digit_char e]" by blast
  have "dropWhile py_isspace (str_nat n) = str_nat n"
    using d by (simp add: digit_char_props)
  moreover have "dropWhile py_isspace (rev (str_nat n)) = rev (str_nat n)"
    using e by (simp add: digit_char_props)
  ultimately have s: "py_strip (str_nat n) = digit_char d # cs"
    using d by (simp add: py_strip_def)
  have "py_digits (digit_char d # cs) = digits_from d cs"
    using d by (simp add: py_digits_def digit_char_props)
  also have "\<dots> = digits_from 0 (str_nat n @ [])"
    using d by (simp add: digits_from_digit)
  also have "\<dots> = Some n" by (simp only: digits_from_str_nat) simp
  finally have "py_digits (digit_char d # cs) = Some n" .
  with s d show ?thesis by (simp add: py_int_def digit_char_props)
qed

subsection \<open>Cells\<close>


lemma fill_gaps_eq:
  "fill_gaps n (rd, k) = (rd @ replicate (nat (n - k)) (Str []), max k n)"
proof (induction n "(rd, k)" arbitrary: rd k rule: fill_gaps.induct)
  case (1 n rd k)
  show ?case
  proof (cases "k < n")
    case True
    then have "nat (n - k) = Suc (nat (n - (k + 1)))" by simp
    with True 1 show ?thesis
      by (simp add: fill_gaps.simps[of n rd k] replicate_app_Cons_same)
  next
    case False
    then show ?thesis by (simp add: fill_gaps.simps[of n rd k])
  qed
qed

lemma process_cell_no_index:
  "cell_index c = None \<or> cell_index c = Some [] \<Longrightarrow>
   process_cell int_of float_of (rd, k) c = Inr (rd @ [cell_value float_of (cell_data c)], k + 1)"
  by (auto simp: process_cell_def apply_index_def)

lemma process_cell_index:
  "cell_index c = Some s \<Longrightarrow> s \<noteq> [] \<Longrightarrow> int_of s = Some p \<Longrightarrow>
   process_cell int_of float_of (rd, k) c =
     Inr (rd @ replicate (nat (p - 1 - k)) (Str []) @ [cell_value float_of (cell_data c)],
          max k (p - 1) + 1)"
  by (simp add: process_cell_def apply_index_def fill_gaps_eq)

lemma process_cell_bad_index:
  "cell_index c = Some s \<Longrightarrow> s \<noteq> [] \<Longrightarrow> int_of s = None \<Longrightarrow>
   process_cell int_of float_of st c = Inl ValueError"
  by (simp add: process_cell_def apply_index_def)

text \<open>
  The running count is the length of the row: it holds at the start of a row and after
  every cell, so a value appended to the row stands at the column of the running count.
\<close>

lemma process_cell_count:
  assumes "process_cell int_of float_of (rd, int (length rd)) c = Inr (rd', k')"
  shows "k' = int (length rd')"
proof -
  from assms obtain rd0 k0 where a: "apply_index int_of (cell_index c) (rd, int (length rd)) = Inr (rd0, k0)"
    and r: "rd' = rd0 @ [cell_value float_of (cell_data c)]" "k' = k0 + 1"
    by (auto simp: process_cell_def split: sum.splits)
  from a have "k0 = int (length rd0)"
    by (auto simp: apply_index_def fill_gaps_eq split: option.splits if_splits)
  with r show ?thesis by simp
qed

lemma process_cells_count:
  "process_cells int_of float_of (rd, int (length rd)) cs = Inr (rd', k') \<Longrightarrow> k' = int (length rd')"
proof (induction cs arbitrary: rd)
  case Nil
  then show ?case by auto
next
  case (Cons c cs)
  then obtain rd1 k1 where s: "process_cell int_of float_of (rd, int (length rd)) c = Inr (rd1, k1)"
    and p: "process_cells int_of float_of (rd1, k1) cs = Inr (rd', k')"
    by (auto split: sum.splits)
  from process_cell_count[OF s] have "k1 = int (length rd1)" .
  with p Cons.IH[of rd1] show ?case by simp
qed

text \<open>
  Claim C2. A cell whose \<^verbatim>\<open>Index\<close> attribute reads as the position \<open>P\<close>, met at the running
  count \<open>K < P - 1\<close>: the loop appends exactly \<open>P - 1 - K\<close> empty strings and stops at the
  count \<open>P - 1\<close>; the cell's value is appended after them and the count ends one higher.
  A cell whose \<^verbatim>\<open>Index\<close> attribute is absent or empty is appended to the row as it is,
  and the count goes from \<open>K\<close> to \<open>K + 1\<close>.
\<close>
theorem sparse_index_gap_filled:
  fixes row_data :: "('f::zero) cell_val list"
  shows "(cell_index c = Some s \<and> s \<noteq> [] \<and> int_of s = Some P \<and> K < P - 1 \<longrightarrow>
      fill_gaps (P - 1) (row_data, K) = (row_data @ replicate (nat (P - 1 - K)) (Str []), P - 1) \<and>
      process_cell int_of float_of (row_data, K) c =
        Inr (row_data @ replicate (nat (P - 1 - K)) (Str []) @ [cell_value float_of (cell_data c)],
             (P - 1) + 1))
   \<and> (cell_index c = None \<or> cell_index c = Some [] \<longrightarrow>
      process_cell int_of float_of (row_data, K) c =
        Inr (row_data @ [cell_value float_of (cell_data c)], K + 1))"
proof (intro conjI impI)
  assume h: "cell_index c = Some s \<and> s \<noteq> [] \<and> int_of s = Some P \<and> K < P - 1"
  then have m: "max K (P - 1) = P - 1" by simp
  show "fill_gaps (P - 1) (row_data, K) = (row_data @ replicate (nat (P - 1 - K)) (Str []), P - 1)"
    by (simp add: fill_gaps_eq m)
  from h show "process_cell int_of float_of (row_data, K) c =
        Inr (row_data @ replicate (nat (P - 1 - K)) (Str []) @ [cell_value float_of (cell_data c)],
             (P - 1) + 1)"
    using process_cell_index[of c s int_of P float_of row_data K] by (simp add: m)
next
  assume "cell_index c = None \<or> cell_index c = Some []"
  then show "process_cell int_of float_of (row_data, K) c =
        Inr (row_data @ [cell_value float_of (cell_data c)], K + 1)"
    by (rule process_cell_no_index)
qed

theorem sparse_index_gap_filled_witness:
  "process_cell py_int sample_float ([Str ''a''], 1)
     \<lparr>cell_index = Some ''4'', cell_data = Some \<lparr>data_text = Some ''d'', data_type = None\<rparr>\<rparr>
   = Inr ([Str ''a'', Str [], Str [], Str ''d''], 4)
   \<and> process_cell py_int sample_float ([Str ''a''], 1)
     \<lparr>cell_index = None, cell_data = Some \<lparr>data_text = Some ''d'', data_type = None\<rparr>\<rparr>
   = Inr ([Str ''a'', Str ''d''], 2)"
proof -
  have i: "py_int ''4'' = Some 4" by code_simp
  have v: "cell_value sample_float (Some \<lparr>data_text = Some ''d'', data_type = None\<rparr>) = Str ''d''"
    by (simp add: cell_value_def cell_text_def cell_type_def)
  have r: "replicate (nat (4 - 1 - 1)) (Str []) = [Str [], Str []]" by (simp add: numeral_2_eq_2)
  show ?thesis
    using sparse_index_gap_filled[of "\<lparr>cell_index = Some ''4'', cell_data = Some \<lparr>data_text = Some ''d'', data_type = None\<rparr>\<rparr>"
        "''4''" py_int 4 1 "[Str ''a'']" sample_float]
      sparse_index_gap_filled[of "\<lparr>cell_index = None, cell_data = Some \<lparr>data_text = Some ''d'', data_type = None\<rparr>\<rparr>"
        "''4''" py_int 4 1 "[Str ''a'']" sample_float]
    by (simp add: i v numeral_2_eq_2)
qed


text \<open>
  Claim C9. A cell whose \<^verbatim>\<open>Index\<close> attribute reads as a position \<open>P\<close> with \<open>P - 1 \<le> K\<close>: the
  loop does nothing, the row built so far stays as it is, the cell's value is appended at
  its end and the running count goes from \<open>K\<close> to \<open>K + 1\<close>; there is no error.
\<close>
theorem backward_index_appends:
  fixes row_data :: "('f::zero) cell_val list"
  assumes "cell_index c = Some s" and "s \<noteq> []" and "int_of s = Some P" and "P - 1 \<le> K"
  shows "fill_gaps (P - 1) (row_data, K) = (row_data, K) \<and>
         process_cell int_of float_of (row_data, K) c =
           Inr (row_data @ [cell_value float_of (cell_data c)], K + 1)"
proof -
  from assms(4) have m: "max K (P - 1) = K" and n: "nat (P - 1 - K) = 0" by simp_all
  have "fill_gaps (P - 1) (row_data, K) = (row_data, K)"
    by (simp add: fill_gaps_eq m n)
  moreover have "process_cell int_of float_of (row_data, K) c =
           Inr (row_data @ [cell_value float_of (cell_data c)], K + 1)"
    using process_cell_index[of c s int_of P float_of row_data K] assms by (simp add: m n)
  ultimately show ?thesis by simp
qed

theorem backward_index_appends_witness:
  "process_cell py_int sample_float ([Str ''a'', Str ''b'', Str ''c''], 3)
     \<lparr>cell_index = Some ''2'', cell_data = Some \<lparr>data_text = Some ''d'', data_type = None\<rparr>\<rparr>
   = Inr ([Str ''a'', Str ''b'', Str ''c'', Str ''d''], 4)"
proof -
  have i: "py_int ''2'' = Some 2" by code_simp
  have v: "cell_value sample_float (Some \<lparr>data_text = Some ''d'', data_type = None\<rparr>) = Str ''d''"
    by (simp add: cell_value_def cell_text_def cell_type_def)
  show ?thesis
    using backward_index_appends[of "\<lparr>cell_index = Some ''2'', cell_data = Some \<lparr>data_text = Some ''d'', data_type = None\<rparr>\<rparr>"
        "''2''" py_int 2 3 "[Str ''a'', Str ''b'', Str ''c'']" sample_float]
    by (simp add: i v)
qed

lemma cell_value_Number:
  "data_type d = Some ''Number'' \<Longrightarrow>
   cell_value float_of (Some d) =
     (case data_text d of
        None \<Rightarrow> Num 0
      | Some t \<Rightarrow> if t = [] then Num 0 else (case float_of t of None \<Rightarrow> Num 0 | Some x \<Rightarrow> Num x))"
  by (simp add: cell_value_def cell_text_def cell_type_def split: option.splits)

lemma cell_value_DateTime:
  "data_type d = Some ''DateTime'' \<Longrightarrow> data_text d = Some t \<Longrightarrow>
   cell_value float_of (Some d) =
     (if sublist ''T00:00:00'' t then Str (takeWhile (\<lambda>c. c \<noteq> CHR ''T'') t) else Str t)"
  by (auto simp: cell_value_def cell_text_def cell_type_def)

lemma apply_index_ok:
  "apply_index int_of idx st = Inl e \<longleftrightarrow> (\<exists>s. idx = Some s \<and> s \<noteq> [] \<and> int_of s = None)"
  by (cases e) (auto simp: apply_index_def split: option.splits)

lemma process_cell_Inl:
  "process_cell int_of float_of st c = Inl e \<longleftrightarrow>
   (\<exists>s. cell_index c = Some s \<and> s \<noteq> [] \<and> int_of s = None)"
  by (cases e; cases st) (auto simp: process_cell_def apply_index_def fill_gaps_eq split: option.splits sum.splits if_splits)

lemma takeWhile_first:
  "sublist ''T00:00:00'' t \<Longrightarrow> \<exists>rest. t = takeWhile (\<lambda>c. c \<noteq> CHR ''T'') t @ CHR ''T'' # rest"
proof -
  assume "sublist ''T00:00:00'' t"
  then have "CHR ''T'' \<in> set t" by (auto simp: sublist_def)
  then have "dropWhile (\<lambda>c. c \<noteq> CHR ''T'') t \<noteq> []" by simp
  then obtain x rest where d: "dropWhile (\<lambda>c. c \<noteq> CHR ''T'') t = x # rest" by (cases "dropWhile (\<lambda>c. c \<noteq> CHR ''T'') t") auto
  then have "x = CHR ''T''" using hd_dropWhile[of "\<lambda>c. c \<noteq> CHR ''T''" t] by auto
  with d have "t = takeWhile (\<lambda>c. c \<noteq> CHR ''T'') t @ CHR ''T'' # rest"
    using takeWhile_dropWhile_id[of "\<lambda>c. c \<noteq> CHR ''T''" t] by simp
  then show ?thesis ..
qed


lemma process_cell_Inl_readable:
  "process_cell int_of float_of st c = Inl e \<longleftrightarrow> \<not> index_readable int_of c"
  by (auto simp: process_cell_Inl split: option.splits)

lemma process_cells_Inl:
  "process_cells int_of float_of st cs = Inl e \<longleftrightarrow> (\<exists>c\<in>set cs. \<not> index_readable int_of c)"
proof (induction cs arbitrary: st)
  case Nil
  then show ?case by simp
next
  case (Cons c cs)
  show ?case
  proof (cases "process_cell int_of float_of st c")
    case (Inl e')
    then have "\<not> index_readable int_of c" by (simp add: process_cell_Inl_readable)
    with Inl show ?thesis by (cases e; cases e') simp
  next
    case (Inr st')
    then have "index_readable int_of c"
      using process_cell_Inl_readable[of int_of float_of st c ValueError] by auto
    with Inr Cons.IH[of st'] show ?thesis by simp
  qed
qed

lemma build_row_Inl:
  "build_row int_of float_of row = Inl e \<longleftrightarrow> (\<exists>c\<in>set row. \<not> index_readable int_of c)"
  using process_cells_Inl[of int_of float_of "([], 0)" row e]
  by (auto simp: build_row_def split: sum.splits)

lemma process_rows_built:
  "map (build_row int_of float_of) table = map Inr built \<Longrightarrow>
   process_rows int_of float_of (rs, m) table =
     Inr (rs @ filter (list_ex truthy) built,
          fold max (map length (filter (list_ex truthy) built)) m)"
proof (induction table arbitrary: rs m built)
  case Nil
  then show ?case by simp
next
  case (Cons row table)
  then obtain b bs where b: "built = b # bs" "build_row int_of float_of row = Inr b"
    "map (build_row int_of float_of) table = map Inr bs" by (cases built) auto
  show ?case using Cons.IH[OF b(3)] b by (simp add: max.commute)
qed

lemma process_rows_Inl:
  "process_rows int_of float_of st table = Inl e \<longleftrightarrow>
   (\<exists>row\<in>set table. \<exists>c\<in>set row. \<not> index_readable int_of c)"
proof (induction table arbitrary: st)
  case Nil
  then show ?case by simp
next
  case (Cons row table)
  obtain rs m where st: "st = (rs, m)" by (cases st)
  show ?case
  proof (cases "build_row int_of float_of row")
    case (Inl e')
    then have "\<exists>c\<in>set row. \<not> index_readable int_of c" by (simp add: build_row_Inl)
    with Inl st show ?thesis by (cases e; cases e') simp
  next
    case (Inr b)
    then have "\<not> (\<exists>c\<in>set row. \<not> index_readable int_of c)"
      using build_row_Inl[of int_of float_of row ValueError] by auto
    with Inr st Cons.IH show ?thesis by simp
  qed
qed

lemma all_built:
  "(\<forall>row\<in>set table. \<forall>c\<in>set row. index_readable int_of c) \<Longrightarrow>
   \<exists>built. map (build_row int_of float_of) table = map Inr built"
proof (induction table)
  case Nil
  then show ?case by simp
next
  case (Cons row table)
  then obtain bs where bs: "map (build_row int_of float_of) table = map Inr bs" by auto
  from Cons.prems have "\<not> (\<exists>c\<in>set row. \<not> index_readable int_of c)" by simp
  then obtain b where "build_row int_of float_of row = Inr b"
    using build_row_Inl[of int_of float_of row ValueError]
    by (cases "build_row int_of float_of row") (auto, metis py_error.exhaust)
  with bs have "map (build_row int_of float_of) (row # table) = map Inr (b # bs)" by simp
  then show ?case by blast
qed

lemma fold_max_ge: "x \<in> set xs \<Longrightarrow> (x::nat) \<le> fold max xs m"
  by (simp add: Max.set_eq_fold[symmetric])

lemma length_pad_row: "length r \<le> m \<Longrightarrow> length (pad_row m r) = m"
  by (simp add: pad_row_def)


text \<open>
  Claim C3. A cell of type \<^verbatim>\<open>Number\<close>: when its text is missing, empty, or rejected by
  \<^verbatim>\<open>float\<close>, the value is \<^verbatim>\<open>0.0\<close>; for every text the value is a number, and processing the
  cell ends normally whatever the text is (only an unreadable \<^verbatim>\<open>Index\<close> attribute, which
  is not part of the conversion, can fail).
\<close>
theorem number_coercion_total:
  fixes float_of :: "string \<Rightarrow> ('f::zero) option"
  assumes "cell_data c = Some d" and "data_type d = Some ''Number''"
  shows "(data_text d = None \<or> data_text d = Some [] \<or>
            (\<exists>t. data_text d = Some t \<and> float_of t = None)
          \<longrightarrow> cell_value float_of (cell_data c) = Num 0)
       \<and> (\<exists>x. cell_value float_of (cell_data c) = Num x)
       \<and> (index_readable int_of c \<longrightarrow>
            (\<exists>row_data' x k'. process_cell int_of float_of (row_data, k) c
               = Inr (row_data' @ [Num x], k')))"
proof (intro conjI impI)
  assume "data_text d = None \<or> data_text d = Some [] \<or>
            (\<exists>t. data_text d = Some t \<and> float_of t = None)"
  then show "cell_value float_of (cell_data c) = Num 0"
    using assms by (auto simp: cell_value_Number)
next
  show x: "\<exists>x. cell_value float_of (cell_data c) = Num x"
    using assms by (auto simp: cell_value_Number split: option.splits)
  assume "index_readable int_of c"
  then obtain rd' k' where "apply_index int_of (cell_index c) (row_data, k) = Inr (rd', k')"
    by (cases "apply_index int_of (cell_index c) (row_data, k)")
      (auto simp: apply_index_def split: option.splits if_splits)
  with x show "\<exists>row_data' x k'. process_cell int_of float_of (row_data, k) c
               = Inr (row_data' @ [Num x], k')"
    by (auto simp: process_cell_def)
qed

theorem number_coercion_total_witness:
  "cell_value sample_float (Some \<lparr>data_text = Some ''abc'', data_type = Some ''Number''\<rparr>) = Num 0
   \<and> cell_value sample_float (Some \<lparr>data_text = None, data_type = Some ''Number''\<rparr>) = Num 0
   \<and> (\<exists>row_data' x k'.
        process_cell py_int sample_float ([Str ''a''], 1)
          \<lparr>cell_index = None,
           cell_data = Some \<lparr>data_text = Some ''abc'', data_type = Some ''Number''\<rparr>\<rparr>
        = Inr (row_data' @ [Num x], k'))"
proof -
  have f: "sample_float ''abc'' = None" by (simp add: sample_float_def)
  show ?thesis
    using number_coercion_total[of "\<lparr>cell_index = None,
           cell_data = Some \<lparr>data_text = Some ''abc'', data_type = Some ''Number''\<rparr>\<rparr>"
        "\<lparr>data_text = Some ''abc'', data_type = Some ''Number''\<rparr>" sample_float py_int "[Str ''a'']" 1]
      number_coercion_total[of "\<lparr>cell_index = None,
           cell_data = Some \<lparr>data_text = None, data_type = Some ''Number''\<rparr>\<rparr>"
        "\<lparr>data_text = None, data_type = Some ''Number''\<rparr>" sample_float py_int "[Str ''a'']" 1]
    by (simp add: f)
qed

text \<open>
  Claim C4 says that a \<^verbatim>\<open>DateTime\<close> text is cut when it ends in the midnight suffix and
  passes through unchanged otherwise. The text \<^verbatim>\<open>2024-01-05T00:00:00.500\<close> does not end in
  \<^verbatim>\<open>T00:00:00\<close>, and it is cut all the same.
\<close>
theorem datetime_suffix_counterexample:
  "\<not> suffix ''T00:00:00'' ''2024-01-05T00:00:00.500'' \<and>
   cell_value sample_float
     (Some \<lparr>data_text = Some ''2024-01-05T00:00:00.500'', data_type = Some ''DateTime''\<rparr>)
   = Str ''2024-01-05''"
  by (simp add: suffix_to_prefix cell_value_def cell_text_def cell_type_def sublist_code prefix_code)

text \<open>
  Claim C4, amended. A cell of type \<^verbatim>\<open>DateTime\<close>: when its text contains \<^verbatim>\<open>T00:00:00\<close>, at the
  end or anywhere else, the value is the text before its first \<^verbatim>\<open>T\<close>, and otherwise the
  text itself. For a date without a \<^verbatim>\<open>T\<close> followed by the suffix \<^verbatim>\<open>T00:00:00\<close> the value is
  the date; \<^verbatim>\<open>2024-01-05T00:00:00\<close> gives \<^verbatim>\<open>2024-01-05\<close> and \<^verbatim>\<open>2024-01-05T08:30:00\<close> stays.
\<close>
theorem datetime_midnight_cut:
  fixes float_of :: "string \<Rightarrow> ('f::zero) option"
  assumes "data_type d = Some ''DateTime''" and "data_text d = Some t"
  shows "cell_value float_of (Some d) =
           (if sublist ''T00:00:00'' t then Str (takeWhile (\<lambda>c. c \<noteq> CHR ''T'') t) else Str t)
       \<and> (\<forall>date. t = date @ ''T00:00:00'' \<and> CHR ''T'' \<notin> set date
            \<longrightarrow> cell_value float_of (Some d) = Str date)
       \<and> cell_value float_of
            (Some \<lparr>data_text = Some ''2024-01-05T00:00:00'', data_type = Some ''DateTime''\<rparr>)
          = Str ''2024-01-05''
       \<and> cell_value float_of
            (Some \<lparr>data_text = Some ''2024-01-05T08:30:00'', data_type = Some ''DateTime''\<rparr>)
          = Str ''2024-01-05T08:30:00''"
proof (intro conjI allI impI)
  show g: "cell_value float_of (Some d) =
           (if sublist ''T00:00:00'' t then Str (takeWhile (\<lambda>c. c \<noteq> CHR ''T'') t) else Str t)"
    using assms by (rule cell_value_DateTime)
  show "cell_value float_of
            (Some \<lparr>data_text = Some ''2024-01-05T00:00:00'', data_type = Some ''DateTime''\<rparr>)
          = Str ''2024-01-05''"
    by (simp add: cell_value_def cell_text_def cell_type_def sublist_code prefix_code)
  show "cell_value float_of
            (Some \<lparr>data_text = Some ''2024-01-05T08:30:00'', data_type = Some ''DateTime''\<rparr>)
          = Str ''2024-01-05T08:30:00''"
    by (simp add: cell_value_def cell_text_def cell_type_def sublist_code prefix_code)
  fix date
  assume d: "t = date @ ''T00:00:00'' \<and> CHR ''T'' \<notin> set date"
  then have "sublist ''T00:00:00'' t" by (metis sublist_appendI append_Nil2)
  moreover from d have "takeWhile (\<lambda>c. c \<noteq> CHR ''T'') t = date"
    by (auto simp: takeWhile_tail takeWhile_eq_all_conv)
  ultimately show "cell_value float_of (Some d) = Str date" using g by simp
qed

theorem datetime_midnight_cut_witness:
  "cell_value sample_float
     (Some \<lparr>data_text = Some ''2024-03-01T00:00:00'', data_type = Some ''DateTime''\<rparr>)
   = Str ''2024-03-01''"
  using datetime_midnight_cut[of "\<lparr>data_text = Some ''2024-03-01T00:00:00'', data_type = Some ''DateTime''\<rparr>"
      "''2024-03-01T00:00:00''" sample_float]
  by (simp add: sublist_code prefix_code)

text \<open>
  Claim C10. A cell of type \<^verbatim>\<open>DateTime\<close> whose text contains \<^verbatim>\<open>T00:00:00\<close> at any position
  (any text before it, any text after it): the value is the part of the text before its
  first \<^verbatim>\<open>T\<close>.
\<close>
theorem datetime_midnight_anywhere:
  fixes float_of :: "string \<Rightarrow> ('f::zero) option"
  assumes "data_type d = Some ''DateTime''" and "data_text d = Some (ps @ ''T00:00:00'' @ ss)"
  shows "\<exists>before rest. ps @ ''T00:00:00'' @ ss = before @ CHR ''T'' # rest \<and>
           CHR ''T'' \<notin> set before \<and> cell_value float_of (Some d) = Str before"
proof -
  let ?t = "ps @ ''T00:00:00'' @ ss"
  let ?b = "takeWhile (\<lambda>c. c \<noteq> CHR ''T'') ?t"
  have s: "sublist ''T00:00:00'' ?t" by (rule sublist_appendI)
  then obtain rest where "?t = ?b @ CHR ''T'' # rest" using takeWhile_first by blast
  moreover have "CHR ''T'' \<notin> set ?b" by (auto dest: set_takeWhileD)
  moreover have "cell_value float_of (Some d) = Str ?b"
    using cell_value_DateTime[OF assms, of float_of] s by simp
  ultimately show ?thesis by blast
qed

lemma first_split_unique:
  "xs = b @ x # r \<Longrightarrow> x \<notin> set b \<Longrightarrow> takeWhile (\<lambda>c. c \<noteq> x) xs = b"
  by (auto simp: takeWhile_tail takeWhile_eq_all_conv)

theorem datetime_midnight_anywhere_witness:
  "cell_value sample_float
     (Some \<lparr>data_text = Some ''2024-01-05T00:00:00.500'', data_type = Some ''DateTime''\<rparr>)
   = Str ''2024-01-05''"
proof -
  obtain before rest where b: "''2024-01-05'' @ ''T00:00:00'' @ ''.500'' = before @ CHR ''T'' # rest"
      "CHR ''T'' \<notin> set before"
      "cell_value sample_float
        (Some \<lparr>data_text = Some ''2024-01-05T00:00:00.500'', data_type = Some ''DateTime''\<rparr>)
       = Str before"
    using datetime_midnight_anywhere[of "\<lparr>data_text = Some ''2024-01-05T00:00:00.500'', data_type = Some ''DateTime''\<rparr>"
        "''2024-01-05''" "''.500''" sample_float]
    by auto
  from first_split_unique[OF b(1,2)] have "before = ''2024-01-05''" by simp
  with b(3) show ?thesis by simp
qed

subsection \<open>Rows, tables and sheets\<close>


lemma process_rows_Inr:
  assumes "process_rows int_of float_of (rs, m) table = Inr (kept, m')"
  shows "\<exists>built. map (build_row int_of float_of) table = map Inr built \<and>
           kept = rs @ filter (list_ex truthy) built \<and>
           m' = fold max (map length (filter (list_ex truthy) built)) m"
proof -
  have "\<not> (\<exists>row\<in>set table. \<exists>c\<in>set row. \<not> index_readable int_of c)"
    using assms process_rows_Inl[of int_of float_of "(rs, m)" table ValueError] by auto
  then obtain built where b: "map (build_row int_of float_of) table = map Inr built"
    using all_built[of table int_of float_of] by auto
  from process_rows_built[OF b, of rs m] assms show ?thesis using b by auto
qed

lemma fold_max_Max:
  "fold max (map length kept) (0::nat) = Max (insert 0 (length ` set kept))"
  using Max.set_eq_fold[of 0 "map length kept"] by simp

lemma Max_insert0:
  "kept \<noteq> [] \<Longrightarrow> Max (insert (0::nat) (length ` set kept)) = Max (length ` set kept)"
  by (subst Max_insert) auto

lemma normalize_table_Inr:
  assumes "normalize_table int_of float_of table = Inr rows"
  shows "\<exists>kept m. process_rows int_of float_of ([], 0) table = Inr (kept, m) \<and>
           m = Max (insert 0 (length ` set kept)) \<and>
           rows = map (pad_row m) kept \<and> (\<forall>r\<in>set rows. length r = m)"
proof -
  from assms obtain kept m where p: "process_rows int_of float_of ([], 0) table = Inr (kept, m)"
    and r: "rows = map (pad_row m) kept"
    by (auto simp: normalize_table_def split: sum.splits)
  from process_rows_Inr[OF p] have m: "m = fold max (map length kept) 0" by auto
  then have m': "m = Max (insert 0 (length ` set kept))" by (simp add: fold_max_Max)
  have "\<forall>r\<in>set kept. length r \<le> m" using m by (auto intro: fold_max_ge)
  then have "\<forall>r\<in>set rows. length r = m" using r by (auto simp: length_pad_row)
  with p r m' show ?thesis by blast
qed

lemma length_make_headers: "length (make_headers float_str h) = length h"
  by (simp add: make_headers_def)

lemma nth_make_headers:
  "i < length h \<Longrightarrow> make_headers float_str h ! i = header_name float_str i (h ! i)"
  by (simp add: make_headers_def nth_enumerate_eq)

lemma dict_set_cases:
  "(n, v') \<in> set (dict_set k v ps) \<Longrightarrow> (n, v') = (k, v) \<or> (n, v') \<in> set ps"
  by (induction ps) (auto split: if_splits)

lemma dict_set_not_Nil: "dict_set k v ps \<noteq> []"
  by (cases ps) auto

lemma store_sheet_cases:
  "(n, df) \<in> set (store_sheet float_str name rows acc) \<Longrightarrow>
   (n, df) \<in> set acc \<or>
   (n = name \<and> (\<exists>h r rs. rows = h # r # rs \<and>
       df = \<lparr>columns = make_headers float_str h, df_rows = r # rs\<rparr>))"
  by (auto simp: store_sheet_def split: list.splits dest: dict_set_cases)

lemma store_sheet_short: "length rows < 2 \<Longrightarrow> store_sheet float_str name rows acc = acc"
  by (auto simp: store_sheet_def split: list.splits)

lemma store_sheet_not_Nil:
  "acc \<noteq> [] \<or> 2 \<le> length rows \<Longrightarrow> store_sheet float_str name rows acc \<noteq> []"
  by (auto simp: store_sheet_def dict_set_not_Nil split: list.splits)

lemma process_worksheets_provenance:
  "process_worksheets int_of float_of float_str acc wss = Inr out \<Longrightarrow> (n, df) \<in> set out \<Longrightarrow>
   (n, df) \<in> set acc \<or>
   (\<exists>ws\<in>set wss. \<exists>t h r rs. ws_table ws = Some t \<and> sheet_name ws = n \<and>
      normalize_table int_of float_of t = Inr (h # r # rs) \<and>
      df = \<lparr>columns = make_headers float_str h, df_rows = r # rs\<rparr>)"
proof (induction wss arbitrary: acc)
  case Nil
  then show ?case by simp
next
  case (Cons ws wss)
  show ?case
  proof (cases "ws_table ws")
    case None
    with Cons.prems have "process_worksheets int_of float_of float_str acc wss = Inr out" by simp
    from Cons.IH[OF this Cons.prems(2)] show ?thesis by auto
  next
    case (Some t)
    with Cons.prems(1) obtain rows where r: "normalize_table int_of float_of t = Inr rows"
      and p: "process_worksheets int_of float_of float_str
                (store_sheet float_str (sheet_name ws) rows acc) wss = Inr out"
      by (auto split: sum.splits)
    from Cons.IH[OF p Cons.prems(2)] show ?thesis
    proof
      assume "(n, df) \<in> set (store_sheet float_str (sheet_name ws) rows acc)"
      from store_sheet_cases[OF this] show ?thesis using Some r by auto
    next
      assume "\<exists>ws\<in>set wss. \<exists>t h r rs. ws_table ws = Some t \<and> sheet_name ws = n \<and>
        normalize_table int_of float_of t = Inr (h # r # rs) \<and>
        df = \<lparr>columns = make_headers float_str h, df_rows = r # rs\<rparr>"
      then show ?thesis by auto
    qed
  qed
qed

lemma process_worksheets_Inl:
  "process_worksheets int_of float_of float_str acc wss = Inl e \<longleftrightarrow>
   (\<exists>ws\<in>set wss. \<exists>t. ws_table ws = Some t \<and> normalize_table int_of float_of t = Inl e)"
proof (induction wss arbitrary: acc)
  case Nil
  then show ?case by simp
next
  case (Cons ws wss)
  show ?case
  proof (cases "ws_table ws")
    case None
    with Cons.IH[of acc] show ?thesis by simp
  next
    case (Some t)
    show ?thesis
    proof (cases "normalize_table int_of float_of t")
      case (Inl e')
      with Some show ?thesis by (cases e; cases e') auto
    next
      case (Inr rows)
      with Some Cons.IH[of "store_sheet float_str (sheet_name ws) rows acc"] show ?thesis by auto
    qed
  qed
qed

lemma process_worksheets_none:
  "\<forall>ws\<in>set wss. \<forall>t. ws_table ws = Some t \<longrightarrow>
     (\<exists>rows. normalize_table int_of float_of t = Inr rows \<and> length rows < 2) \<Longrightarrow>
   process_worksheets int_of float_of float_str acc wss = Inr acc"
proof (induction wss)
  case Nil
  then show ?case by simp
next
  case (Cons ws wss)
  then show ?case by (cases "ws_table ws") (auto simp: store_sheet_short)
qed

lemma process_worksheets_grows:
  "process_worksheets int_of float_of float_str acc wss = Inr out \<Longrightarrow> acc \<noteq> [] \<Longrightarrow> out \<noteq> []"
proof (induction wss arbitrary: acc)
  case Nil
  then show ?case by simp
next
  case (Cons ws wss)
  then show ?case
    by (cases "ws_table ws") (auto simp: store_sheet_not_Nil split: sum.splits)
qed

lemma process_worksheets_some:
  "process_worksheets int_of float_of float_str acc wss = Inr out \<Longrightarrow>
   \<exists>ws\<in>set wss. \<exists>t rows. ws_table ws = Some t \<and>
      normalize_table int_of float_of t = Inr rows \<and> 2 \<le> length rows \<Longrightarrow>
   out \<noteq> []"
proof (induction wss arbitrary: acc)
  case Nil
  then show ?case by simp
next
  case (Cons ws wss)
  show ?case
  proof (cases "ws_table ws")
    case None
    with Cons show ?thesis by auto
  next
    case (Some t)
    with Cons.prems(1) obtain rows where r: "normalize_table int_of float_of t = Inr rows"
      and p: "process_worksheets int_of float_of float_str
                (store_sheet float_str (sheet_name ws) rows acc) wss = Inr out"
      by (auto split: sum.splits)
    show ?thesis
    proof (cases "2 \<le> length rows")
      case True
      then have "store_sheet float_str (sheet_name ws) rows acc \<noteq> []"
        by (simp add: store_sheet_not_Nil)
      with p show ?thesis by (rule process_worksheets_grows)
    next
      case False
      with Cons.prems(2) Some r have "\<exists>ws\<in>set wss. \<exists>t rows. ws_table ws = Some t \<and>
        normalize_table int_of float_of t = Inr rows \<and> 2 \<le> length rows" by auto
      with Cons.IH[OF p] show ?thesis by simp
    qed
  qed
qed

lemma written_sheets:
  "written (parse_excel_xml int_of float_of float_str xml_file xlsx_file doc) = Some sheets \<Longrightarrow>
   process_worksheets int_of float_of float_str [] doc = Inr sheets"
  by (auto simp: parse_excel_xml_def split: sum.splits if_splits)



lemma str_nat_digit: "n < 10 \<Longrightarrow> str_nat n = [digit_char n]"
  by (simp add: str_nat.simps)

lemma roundtrip_run:
  "parse_excel_xml py_int sample_float sample_str ''in.xml'' ''out.xlsx'' roundtrip_doc =
     \<lparr>written = Some [(''Data'', roundtrip_frame)],
      printed = Successfully_converted ''in.xml'' ''out.xlsx'', returned = True\<rparr>"
  by (simp add: parse_excel_xml_def roundtrip_doc_def roundtrip_frame_def normalize_table_def
      build_row_def process_cell_def apply_index_def cell_value_def cell_text_def cell_type_def
      sample_float_def store_sheet_def sheet_name_def pad_row_def make_headers_def
      header_name_def enumerate_eq_zip upt_rec)


lemma sheet_source:
  assumes "written (parse_excel_xml int_of float_of float_str xml_file xlsx_file doc) = Some sheets"
    and "(name, df) \<in> set sheets"
  shows "\<exists>ws\<in>set doc. \<exists>t h r rs. ws_table ws = Some t \<and> sheet_name ws = name \<and>
      normalize_table int_of float_of t = Inr (h # r # rs) \<and>
      df = \<lparr>columns = make_headers float_str h, df_rows = r # rs\<rparr>"
  using process_worksheets_provenance[OF written_sheets[OF assms(1)] assms(2)] by simp

text \<open>
  Claim C1. Every sheet that a run writes comes from a worksheet of the document whose
  table has kept rows; with \<open>m\<close> the greatest length of a kept row, the column labels are made
  from the first kept row padded to \<open>m\<close>, the data rows are the other kept rows padded to
  \<open>m\<close>, and so the header and every data row have the same length \<open>m\<close>.
\<close>
theorem written_sheets_rectangular:
  assumes "written (parse_excel_xml int_of float_of float_str xml_file xlsx_file doc) = Some sheets"
    and "(name, df) \<in> set sheets"
  shows "\<exists>ws\<in>set doc. \<exists>t kept m. ws_table ws = Some t \<and> sheet_name ws = name \<and>
           process_rows int_of float_of ([], 0) t = Inr (kept, m) \<and>
           kept \<noteq> [] \<and> m = Max (length ` set kept) \<and>
           columns df = make_headers float_str (pad_row m (hd kept)) \<and>
           df_rows df = map (pad_row m) (tl kept) \<and>
           length (columns df) = m \<and> (\<forall>r\<in>set (df_rows df). length r = m)"
proof -
  from sheet_source[OF assms] obtain ws t h r rs where ws: "ws \<in> set doc" "ws_table ws = Some t"
    "sheet_name ws = name" and n: "normalize_table int_of float_of t = Inr (h # r # rs)"
    and df: "df = \<lparr>columns = make_headers float_str h, df_rows = r # rs\<rparr>" by blast
  from normalize_table_Inr[OF n] obtain kept m where
    p: "process_rows int_of float_of ([], 0) t = Inr (kept, m)"
    and m: "m = Max (insert 0 (length ` set kept))"
    and rows: "h # r # rs = map (pad_row m) kept"
    and len: "\<forall>x\<in>set (h # r # rs). length x = m" by (elim exE conjE)
  from rows obtain k ks where k: "kept = k # ks" by (cases kept) auto
  then have ne: "kept \<noteq> []" by simp
  from rows k have h: "h = pad_row m (hd kept)" by simp
  from rows k have t: "r # rs = map (pad_row m) (tl kept)" by simp
  from m have m': "m = Max (length ` set kept)" by (simp only: Max_insert0[OF ne])
  have c: "columns df = make_headers float_str (pad_row m (hd kept))"
    by (simp only: df h dataframe.simps)
  have d: "df_rows df = map (pad_row m) (tl kept)"
    by (simp only: df t dataframe.simps)
  have "length h = m" using len by simp
  then have l: "length (columns df) = m" by (simp add: df length_make_headers)
  have a: "\<forall>x\<in>set (df_rows df). length x = m" using len by (simp add: df)
  from ws(2,3) p ne m' c d l a
  have "\<exists>t kept m. ws_table ws = Some t \<and> sheet_name ws = name \<and>
           process_rows int_of float_of ([], 0) t = Inr (kept, m) \<and>
           kept \<noteq> [] \<and> m = Max (length ` set kept) \<and>
           columns df = make_headers float_str (pad_row m (hd kept)) \<and>
           df_rows df = map (pad_row m) (tl kept) \<and>
           length (columns df) = m \<and> (\<forall>r\<in>set (df_rows df). length r = m)"
    by blast
  with ws(1) show ?thesis by (rule bexI[rotated])
qed

theorem written_sheets_rectangular_witness:
  "written (parse_excel_xml py_int sample_float sample_str ''in.xml'' ''out.xlsx'' roundtrip_doc)
     = Some [(''Data'', roundtrip_frame)]
   \<and> (\<exists>ws\<in>set roundtrip_doc. \<exists>t kept m. ws_table ws = Some t \<and> sheet_name ws = ''Data'' \<and>
           process_rows py_int sample_float ([], 0) t = Inr (kept, m) \<and>
           kept \<noteq> [] \<and> m = Max (length ` set kept) \<and>
           columns roundtrip_frame = make_headers sample_str (pad_row m (hd kept)) \<and>
           df_rows roundtrip_frame = map (pad_row m) (tl kept) \<and>
           length (columns roundtrip_frame) = m \<and>
           (\<forall>r\<in>set (df_rows roundtrip_frame). length r = m))"
proof -
  have w: "written (parse_excel_xml py_int sample_float sample_str ''in.xml'' ''out.xlsx'' roundtrip_doc)
     = Some [(''Data'', roundtrip_frame)]" by (simp add: roundtrip_run)
  have i: "(''Data'', roundtrip_frame) \<in> set [(''Data'', roundtrip_frame)]" by simp
  from w written_sheets_rectangular[OF w i] show ?thesis by (rule conjI)
qed

text \<open>
  Claim C5. When every row of a table can be built, the rows kept are exactly the built
  rows with at least one truthy value (a non-empty string or a non-zero number), in their
  order; the width is the greatest length among the kept rows only (\<open>0\<close> when there is
  none), and the normalized table is the kept rows padded to it. A row whose values are
  all the empty string is not kept.
\<close>
theorem blank_rows_dropped:
  assumes "map (build_row int_of float_of) table = map Inr built"
  shows "\<exists>kept m. kept = filter (\<lambda>r. \<exists>x\<in>set r. truthy x) built \<and>
           m = Max (insert 0 (length ` {r \<in> set built. \<exists>x\<in>set r. truthy x})) \<and>
           process_rows int_of float_of ([], 0) table = Inr (kept, m) \<and>
           normalize_table int_of float_of table = Inr (map (pad_row m) kept) \<and>
           (\<forall>r\<in>set built. (\<forall>x\<in>set r. x = Str []) \<longrightarrow> r \<notin> set kept)"
proof -
  let ?kept = "filter (\<lambda>r. \<exists>x\<in>set r. truthy x) built"
  let ?m = "Max (insert 0 (length ` {r \<in> set built. \<exists>x\<in>set r. truthy x}))"
  have f: "filter (list_ex truthy) built = ?kept"
    by (rule filter_cong) (simp_all add: list_ex_iff)
  have p: "process_rows int_of float_of ([], 0) table = Inr (?kept, ?m)"
    using process_rows_built[OF assms, of "[]" 0] by (simp add: f fold_max_Max)
  then have n: "normalize_table int_of float_of table = Inr (map (pad_row ?m) ?kept)"
    by (simp add: normalize_table_def)
  have "\<forall>r\<in>set built. (\<forall>x\<in>set r. x = Str []) \<longrightarrow> r \<notin> set ?kept" by auto
  with p n show ?thesis by blast
qed


lemmas run_defs =
  parse_excel_xml_def normalize_table_def build_row_def process_cell_def apply_index_def
  cell_value_def cell_text_def cell_type_def sample_float_def store_sheet_def sheet_name_def
  pad_row_def make_headers_def header_name_def enumerate_eq_zip upt_rec str_nat_digit
  digit_char_def

theorem blank_rows_dropped_witness:
  "map (build_row py_int sample_float)
     [[plain_cell ''String'' ''Name'', plain_cell ''Number'' ''30''],
      [plain_cell ''String'' [], plain_cell ''Number'' ''abc'', plain_cell ''String'' []]]
   = map Inr [[Str ''Name'', Num 30], [Str [], Num 0, Str []]]
   \<and> process_rows py_int sample_float ([], 0)
     [[plain_cell ''String'' ''Name'', plain_cell ''Number'' ''30''],
      [plain_cell ''String'' [], plain_cell ''Number'' ''abc'', plain_cell ''String'' []]]
   = Inr ([[Str ''Name'', Num 30]], 2)"
proof -
  have b: "map (build_row py_int sample_float)
     [[plain_cell ''String'' ''Name'', plain_cell ''Number'' ''30''],
      [plain_cell ''String'' [], plain_cell ''Number'' ''abc'', plain_cell ''String'' []]]
   = map Inr [[Str ''Name'', Num 30], [Str [], Num 0, Str []]]"
    by (simp add: run_defs)
  have s: "{r \<in> set [[Str ''Name'', Num (30::real)], [Str [], Num 0, Str []]]. \<exists>x\<in>set r. truthy x}
      = {[Str ''Name'', Num 30]}" by auto
  from blank_rows_dropped[OF b] b show ?thesis by (simp add: s)
qed

text \<open>
  Claim C7 says that an entry of the first row that is empty or blank is replaced and that
  every other entry passes through. Line 88 replaces the entries that are falsy: in this
  document the first row holds the number \<^verbatim>\<open>0\<close> and the text \<^verbatim>\<open>City\<close>; the number is neither
  empty nor blank, its rendering by \<^verbatim>\<open>str\<close> is \<^verbatim>\<open>0.0\<close>, and the label written for it is
  \<^verbatim>\<open>Column1\<close>.
\<close>
theorem header_zero_counterexample:
  "normalize_table py_int sample_float
     [[plain_cell ''Number'' ''0'', plain_cell ''String'' ''City''],
      [plain_cell ''Number'' ''30'', plain_cell ''String'' ''Paris'']]
     = Inr [[Num 0, Str ''City''], [Num 30, Str ''Paris'']]
   \<and> str_val sample_str (Num 0) = ''0.0''
   \<and> written (parse_excel_xml py_int sample_float sample_str ''in.xml'' ''out.xlsx''
      [\<lparr>ws_name = None,
        ws_table = Some [[plain_cell ''Number'' ''0'', plain_cell ''String'' ''City''],
                         [plain_cell ''Number'' ''30'', plain_cell ''String'' ''Paris'']]\<rparr>])
     = Some [(''Sheet'', \<lparr>columns = [''Column1'', ''City''],
                           df_rows = [[Num 30, Str ''Paris'']]\<rparr>)]"
  by (simp add: run_defs sample_str_def)

text \<open>
  Claim C7, amended. For every sheet that a run writes, the column labels are made from
  the first normalized row \<open>h\<close> of its worksheet, label by label: an entry that is falsy,
  which is the empty string or the number zero, becomes \<^verbatim>\<open>Column\<close> followed by its position
  counted from 1; any other string, also one of white space only, stays as it is, and any
  other number is rendered by \<^verbatim>\<open>str\<close>. Equal labels are not told apart. A first row
  \<^verbatim>\<open>["", "City"]\<close> gives the header \<^verbatim>\<open>["Column1", "City"]\<close>, and so does a first row
  \<^verbatim>\<open>[0.0, "City"]\<close>.
\<close>
theorem header_labels:
  assumes "written (parse_excel_xml int_of float_of float_str xml_file xlsx_file doc) = Some sheets"
    and "(name, df) \<in> set sheets"
  shows "(\<exists>ws\<in>set doc. \<exists>t h rest. ws_table ws = Some t \<and> sheet_name ws = name \<and>
            normalize_table int_of float_of t = Inr (h # rest) \<and> rest \<noteq> [] \<and>
            df_rows df = rest \<and> length (columns df) = length h \<and>
            (\<forall>i<length h. columns df ! i =
               (case h ! i of
                  Str s \<Rightarrow> if s = [] then ''Column'' @ str_nat (i + 1) else s
                | Num x \<Rightarrow> if x = 0 then ''Column'' @ str_nat (i + 1) else float_str x)))
       \<and> make_headers float_str [Str [], Str ''City''] = [''Column1'', ''City'']
       \<and> make_headers float_str [Str ''City'', Str ''City''] = [''City'', ''City'']
       \<and> make_headers float_str [Num 0, Str ''City''] = [''Column1'', ''City'']
       \<and> make_headers float_str [Str '' '', Str ''City''] = ['' '', ''City'']"
proof (intro conjI)
  from sheet_source[OF assms] obtain ws t h r rs where ws: "ws \<in> set doc" "ws_table ws = Some t"
    "sheet_name ws = name" and n: "normalize_table int_of float_of t = Inr (h # r # rs)"
    and df: "df = \<lparr>columns = make_headers float_str h, df_rows = r # rs\<rparr>" by blast
  have l: "length (columns df) = length h" by (simp add: df length_make_headers)
  have e: "\<forall>i<length h. columns df ! i =
               (case h ! i of
                  Str s \<Rightarrow> if s = [] then ''Column'' @ str_nat (i + 1) else s
                | Num x \<Rightarrow> if x = 0 then ''Column'' @ str_nat (i + 1) else float_str x)"
    by (simp add: df nth_make_headers header_name_def split: cell_val.splits)
  have d: "df_rows df = r # rs" and ne: "r # rs \<noteq> []" by (simp_all add: df)
  show "\<exists>ws\<in>set doc. \<exists>t h rest. ws_table ws = Some t \<and> sheet_name ws = name \<and>
            normalize_table int_of float_of t = Inr (h # rest) \<and> rest \<noteq> [] \<and>
            df_rows df = rest \<and> length (columns df) = length h \<and>
            (\<forall>i<length h. columns df ! i =
               (case h ! i of
                  Str s \<Rightarrow> if s = [] then ''Column'' @ str_nat (i + 1) else s
                | Num x \<Rightarrow> if x = 0 then ''Column'' @ str_nat (i + 1) else float_str x))"
    by (intro bexI[of _ ws] exI[of _ t] exI[of _ h] exI[of _ "r # rs"] conjI)
      (fact ws n ne d l e)+
next
  show "make_headers float_str [Str [], Str ''City''] = [''Column1'', ''City'']"
    by (simp add: make_headers_def header_name_def enumerate_eq_zip upt_rec str_nat_digit digit_char_def)
  show "make_headers float_str [Str ''City'', Str ''City''] = [''City'', ''City'']"
    by (simp add: make_headers_def header_name_def enumerate_eq_zip upt_rec)
  show "make_headers float_str [Num 0, Str ''City''] = [''Column1'', ''City'']"
    by (simp add: make_headers_def header_name_def enumerate_eq_zip upt_rec str_nat_digit digit_char_def)
  show "make_headers float_str [Str '' '', Str ''City''] = ['' '', ''City'']"
    by (simp add: make_headers_def header_name_def enumerate_eq_zip upt_rec)
qed


theorem header_labels_witness:
  "written (parse_excel_xml py_int sample_float sample_str ''in.xml'' ''out.xlsx''
      [\<lparr>ws_name = None,
        ws_table = Some [[plain_cell ''String'' [], plain_cell ''String'' ''City''],
                         [plain_cell ''Number'' ''30'', plain_cell ''String'' ''Paris'']]\<rparr>])
     = Some [(''Sheet'', \<lparr>columns = [''Column1'', ''City''],
                           df_rows = [[Num 30, Str ''Paris'']]\<rparr>)]
   \<and> (\<exists>ws\<in>set [\<lparr>ws_name = None,
        ws_table = Some [[plain_cell ''String'' [], plain_cell ''String'' ''City''],
                         [plain_cell ''Number'' ''30'', plain_cell ''String'' ''Paris'']]\<rparr>].
        \<exists>t h rest. ws_table ws = Some t \<and> sheet_name ws = ''Sheet'' \<and>
            normalize_table py_int sample_float t = Inr (h # rest) \<and> rest \<noteq> [] \<and>
            df_rows \<lparr>columns = [''Column1'', ''City''], df_rows = [[Num 30, Str ''Paris'']]\<rparr> = rest \<and>
            length (columns \<lparr>columns = [''Column1'', ''City''],
                             df_rows = [[Num (30::real), Str ''Paris'']]\<rparr>) = length h \<and>
            (\<forall>i<length h.
               columns \<lparr>columns = [''Column1'', ''City''],
                        df_rows = [[Num (30::real), Str ''Paris'']]\<rparr> ! i =
               (case h ! i of
                  Str s \<Rightarrow> if s = [] then ''Column'' @ str_nat (i + 1) else s
                | Num x \<Rightarrow> if x = 0 then ''Column'' @ str_nat (i + 1) else sample_str x)))"
proof -
  have w: "written (parse_excel_xml py_int sample_float sample_str ''in.xml'' ''out.xlsx''
      [\<lparr>ws_name = None,
        ws_table = Some [[plain_cell ''String'' [], plain_cell ''String'' ''City''],
                         [plain_cell ''Number'' ''30'', plain_cell ''String'' ''Paris'']]\<rparr>])
     = Some [(''Sheet'', \<lparr>columns = [''Column1'', ''City''],
                           df_rows = [[Num 30, Str ''Paris'']]\<rparr>)]"
    by (simp add: run_defs)
  have i: "(''Sheet'', \<lparr>columns = [''Column1'', ''City''], df_rows = [[Num (30::real), Str ''Paris'']]\<rparr>)
      \<in> set [(''Sheet'', \<lparr>columns = [''Column1'', ''City''],
                           df_rows = [[Num 30, Str ''Paris'']]\<rparr>)]" by simp
  from header_labels[OF w i] have "\<exists>ws\<in>set [\<lparr>ws_name = None,
        ws_table = Some [[plain_cell ''String'' [], plain_cell ''String'' ''City''],
                         [plain_cell ''Number'' ''30'', plain_cell ''String'' ''Paris'']]\<rparr>].
        \<exists>t h rest. ws_table ws = Some t \<and> sheet_name ws = ''Sheet'' \<and>
            normalize_table py_int sample_float t = Inr (h # rest) \<and> rest \<noteq> [] \<and>
            df_rows \<lparr>columns = [''Column1'', ''City''], df_rows = [[Num 30, Str ''Paris'']]\<rparr> = rest \<and>
            length (columns \<lparr>columns = [''Column1'', ''City''],
                             df_rows = [[Num (30::real), Str ''Paris'']]\<rparr>) = length h \<and>
            (\<forall>i<length h.
               columns \<lparr>columns = [''Column1'', ''City''],
                        df_rows = [[Num (30::real), Str ''Paris'']]\<rparr> ! i =
               (case h ! i of
                  Str s \<Rightarrow> if s = [] then ''Column'' @ str_nat (i + 1) else s
                | Num x \<Rightarrow> if x = 0 then ''Column'' @ str_nat (i + 1) else sample_str x))"
    by (rule conjunct1)
  with w show ?thesis by (rule conjI)
qed

text \<open>
  Claim C8 says that normalizing a table raises on no input. A cell with the attribute
  \<^verbatim>\<open>Index="B"\<close> makes \<^verbatim>\<open>int\<close> raise \<^verbatim>\<open>ValueError\<close> on line 47, inside the loop over the cells.
\<close>
theorem normalize_raises_counterexample:
  "normalize_table py_int sample_float
     [[\<lparr>cell_index = Some ''B'',
        cell_data = Some \<lparr>data_text = Some ''x'', data_type = Some ''String''\<rparr>\<rparr>]]
   = Inl ValueError"
proof -
  have "py_int ''B'' = None" by code_simp
  then show ?thesis by (simp add: normalize_table_def build_row_def process_cell_def apply_index_def)
qed

text \<open>
  Claim C8, amended. Normalizing a table ends normally exactly when the \<^verbatim>\<open>Index\<close>
  attribute of every cell is readable (absent, empty, or accepted by \<^verbatim>\<open>int\<close>), and raises
  \<^verbatim>\<open>ValueError\<close> exactly when some cell has an unreadable one; there is no other error.
  Numeric text that \<^verbatim>\<open>float\<close> rejects gives \<^verbatim>\<open>0.0\<close>.
\<close>
theorem normalize_raises_iff_index_unreadable:
  fixes float_of :: "string \<Rightarrow> ('f::zero) option"
  shows "((\<exists>rows. normalize_table int_of float_of table = Inr rows) \<longleftrightarrow>
            (\<forall>row\<in>set table. \<forall>c\<in>set row. index_readable int_of c))
       \<and> (normalize_table int_of float_of table = Inl ValueError \<longleftrightarrow>
            (\<exists>row\<in>set table. \<exists>c\<in>set row. \<not> index_readable int_of c))
       \<and> (\<forall>d t. data_type d = Some ''Number'' \<and> data_text d = Some t \<and> float_of t = None
            \<longrightarrow> cell_value float_of (Some d) = Num 0)"
proof (intro conjI allI impI)
  have l: "normalize_table int_of float_of table = Inl ValueError \<longleftrightarrow>
      process_rows int_of float_of ([], 0) table = Inl ValueError"
    by (auto simp: normalize_table_def split: sum.splits)
  then show b: "normalize_table int_of float_of table = Inl ValueError \<longleftrightarrow>
            (\<exists>row\<in>set table. \<exists>c\<in>set row. \<not> index_readable int_of c)"
    by (simp only: process_rows_Inl)
  have "(\<exists>rows. normalize_table int_of float_of table = Inr rows) \<longleftrightarrow>
      normalize_table int_of float_of table \<noteq> Inl ValueError"
    by (cases "normalize_table int_of float_of table") (auto intro: py_error.exhaust)
  with b show "(\<exists>rows. normalize_table int_of float_of table = Inr rows) \<longleftrightarrow>
            (\<forall>row\<in>set table. \<forall>c\<in>set row. index_readable int_of c)"
    by blast
next
  fix d :: data_elem and t
  assume "data_type d = Some ''Number'' \<and> data_text d = Some t \<and> float_of t = None"
  then show "cell_value float_of (Some d) = Num 0" by (simp add: cell_value_Number)
qed

theorem normalize_raises_iff_index_unreadable_witness:
  "normalize_table py_int sample_float
     [[plain_cell ''String'' ''a'',
       \<lparr>cell_index = Some ''4'',
        cell_data = Some \<lparr>data_text = Some ''n/a'', data_type = Some ''Number''\<rparr>\<rparr>]]
   = Inr [[Str ''a'', Str [], Str [], Num 0]]
   \<and> (\<exists>rows. normalize_table py_int sample_float
     [[plain_cell ''String'' ''a'',
       \<lparr>cell_index = Some ''4'',
        cell_data = Some \<lparr>data_text = Some ''n/a'', data_type = Some ''Number''\<rparr>\<rparr>]]
     = Inr rows)"
proof -
  have i: "py_int ''4'' = Some 4" by code_simp
  have r: "\<forall>row\<in>set [[plain_cell ''String'' ''a'',
       \<lparr>cell_index = Some ''4'',
        cell_data = Some \<lparr>data_text = Some ''n/a'', data_type = Some ''Number''\<rparr>\<rparr>]].
      \<forall>c\<in>set row. index_readable py_int c" by (simp add: i)
  have e: "\<exists>rows. normalize_table py_int sample_float
     [[plain_cell ''String'' ''a'',
       \<lparr>cell_index = Some ''4'',
        cell_data = Some \<lparr>data_text = Some ''n/a'', data_type = Some ''Number''\<rparr>\<rparr>]]
     = Inr rows"
    using normalize_raises_iff_index_unreadable[of py_int sample_float "[[plain_cell ''String'' ''a'',
       \<lparr>cell_index = Some ''4'',
        cell_data = Some \<lparr>data_text = Some ''n/a'', data_type = Some ''Number''\<rparr>\<rparr>]]"] r
    by blast
  have v: "normalize_table py_int sample_float
     [[plain_cell ''String'' ''a'',
       \<lparr>cell_index = Some ''4'',
        cell_data = Some \<lparr>data_text = Some ''n/a'', data_type = Some ''Number''\<rparr>\<rparr>]]
   = Inr [[Str ''a'', Str [], Str [], Num 0]]"
    by (simp add: run_defs i fill_gaps_eq numeral_2_eq_2)
  from v e show ?thesis by (rule conjI)
qed

subsection \<open>The run\<close>


text \<open>
  Claim C6 says that a run in which no worksheet qualifies reports that no data was found.
  Here the only worksheet has a single row, so it cannot qualify, and the cell's attribute
  \<^verbatim>\<open>Index="1.5"\<close> makes \<^verbatim>\<open>int\<close> raise: the run writes nothing and returns \<^verbatim>\<open>False\<close>, but the
  line it prints is the error report of line 107.
\<close>
theorem no_data_report_counterexample:
  "parse_excel_xml py_int sample_float sample_str ''in.xml'' ''out.xlsx''
     [\<lparr>ws_name = Some ''Data'',
       ws_table = Some
         [[\<lparr>cell_index = Some ''1.5'',
            cell_data = Some \<lparr>data_text = Some ''Name'', data_type = Some ''String''\<rparr>\<rparr>]]\<rparr>]
   = \<lparr>written = None, printed = Error_converting ValueError, returned = False\<rparr>"
proof -
  have "py_int ''1.5'' = None" by code_simp
  then show ?thesis
    by (simp add: parse_excel_xml_def normalize_table_def build_row_def process_cell_def
        apply_index_def)
qed

text \<open>
  Claim C6, amended. A sheet is written only for a worksheet whose normalized table has
  at least two rows, the first for the header and the others for the data. A run in which
  no table raises and no worksheet has such a table writes no file, prints that no data
  was found and returns \<^verbatim>\<open>False\<close>. A run in which some table raises writes no file, prints
  the error and returns \<^verbatim>\<open>False\<close>. A run in which no table raises and some worksheet has
  such a table writes the file, prints the confirmation and returns \<^verbatim>\<open>True\<close>.
\<close>
theorem no_data_outcome:
  assumes "out = parse_excel_xml int_of float_of float_str xml_file xlsx_file doc"
  shows "(\<forall>sheets name df. written out = Some sheets \<and> (name, df) \<in> set sheets \<longrightarrow>
            (\<exists>ws\<in>set doc. \<exists>t rows. ws_table ws = Some t \<and> sheet_name ws = name \<and>
               normalize_table int_of float_of t = Inr rows \<and> 2 \<le> length rows \<and>
               df = \<lparr>columns = make_headers float_str (hd rows), df_rows = tl rows\<rparr>))
       \<and> ((\<forall>ws\<in>set doc. \<forall>t. ws_table ws = Some t \<longrightarrow>
              (\<exists>rows. normalize_table int_of float_of t = Inr rows \<and> length rows < 2))
           \<longrightarrow> out = \<lparr>written = None, printed = No_data_found xml_file, returned = False\<rparr>)
       \<and> ((\<exists>ws\<in>set doc. \<exists>t. ws_table ws = Some t \<and>
              normalize_table int_of float_of t = Inl ValueError)
           \<longrightarrow> out = \<lparr>written = None, printed = Error_converting ValueError, returned = False\<rparr>)
       \<and> ((\<forall>ws\<in>set doc. \<forall>t. ws_table ws = Some t \<longrightarrow>
              (\<exists>rows. normalize_table int_of float_of t = Inr rows)) \<and>
            (\<exists>ws\<in>set doc. \<exists>t rows. ws_table ws = Some t \<and>
              normalize_table int_of float_of t = Inr rows \<and> 2 \<le> length rows)
           \<longrightarrow> written out \<noteq> None \<and>
               printed out = Successfully_converted xml_file xlsx_file \<and> returned out = True)"
proof (intro conjI allI impI)
  fix sheets name df
  assume "written out = Some sheets \<and> (name, df) \<in> set sheets"
  then have w: "written (parse_excel_xml int_of float_of float_str xml_file xlsx_file doc) = Some sheets"
    and i: "(name, df) \<in> set sheets" using assms by simp_all
  from sheet_source[OF w i] obtain ws t h r rs where ws: "ws \<in> set doc" "ws_table ws = Some t"
    "sheet_name ws = name" and n: "normalize_table int_of float_of t = Inr (h # r # rs)"
    and df: "df = \<lparr>columns = make_headers float_str h, df_rows = r # rs\<rparr>" by blast
  have l: "2 \<le> length (h # r # rs)" by simp
  have d: "df = \<lparr>columns = make_headers float_str (hd (h # r # rs)), df_rows = tl (h # r # rs)\<rparr>"
    by (simp add: df)
  show "\<exists>ws\<in>set doc. \<exists>t rows. ws_table ws = Some t \<and> sheet_name ws = name \<and>
               normalize_table int_of float_of t = Inr rows \<and> 2 \<le> length rows \<and>
               df = \<lparr>columns = make_headers float_str (hd rows), df_rows = tl rows\<rparr>"
    by (intro bexI[of _ ws] exI[of _ t] exI[of _ "h # r # rs"] conjI) (fact ws n l d)+
next
  assume "\<forall>ws\<in>set doc. \<forall>t. ws_table ws = Some t \<longrightarrow>
              (\<exists>rows. normalize_table int_of float_of t = Inr rows \<and> length rows < 2)"
  then have "process_worksheets int_of float_of float_str [] doc = Inr []"
    by (rule process_worksheets_none)
  then show "out = \<lparr>written = None, printed = No_data_found xml_file, returned = False\<rparr>"
    by (simp add: assms parse_excel_xml_def)
next
  assume "\<exists>ws\<in>set doc. \<exists>t. ws_table ws = Some t \<and>
              normalize_table int_of float_of t = Inl ValueError"
  then have "process_worksheets int_of float_of float_str [] doc = Inl ValueError"
    by (simp only: process_worksheets_Inl)
  then show "out = \<lparr>written = None, printed = Error_converting ValueError, returned = False\<rparr>"
    by (simp add: assms parse_excel_xml_def)
next
  assume a: "(\<forall>ws\<in>set doc. \<forall>t. ws_table ws = Some t \<longrightarrow>
              (\<exists>rows. normalize_table int_of float_of t = Inr rows)) \<and>
            (\<exists>ws\<in>set doc. \<exists>t rows. ws_table ws = Some t \<and>
              normalize_table int_of float_of t = Inr rows \<and> 2 \<le> length rows)"
  then have all: "\<forall>ws\<in>set doc. \<forall>t. ws_table ws = Some t \<longrightarrow>
              (\<exists>rows. normalize_table int_of float_of t = Inr rows)"
    and some: "\<exists>ws\<in>set doc. \<exists>t rows. ws_table ws = Some t \<and>
              normalize_table int_of float_of t = Inr rows \<and> 2 \<le> length rows"
    by (rule conjunct1, rule conjunct2)
  have "\<not> (\<exists>ws\<in>set doc. \<exists>t. ws_table ws = Some t \<and>
              normalize_table int_of float_of t = Inl ValueError)"
  proof
    assume "\<exists>ws\<in>set doc. \<exists>t. ws_table ws = Some t \<and>
              normalize_table int_of float_of t = Inl ValueError"
    then obtain ws t where "ws \<in> set doc" "ws_table ws = Some t"
      "normalize_table int_of float_of t = Inl ValueError" by blast
    with all show False by force
  qed
  then have "process_worksheets int_of float_of float_str [] doc \<noteq> Inl ValueError"
    using process_worksheets_Inl[of int_of float_of float_str "[]" doc ValueError] by blast
  then obtain sheets where s: "process_worksheets int_of float_of float_str [] doc = Inr sheets"
    by (cases "process_worksheets int_of float_of float_str [] doc") (auto intro: py_error.exhaust)
  have "sheets \<noteq> []" using s some by (rule process_worksheets_some)
  with s have "out = \<lparr>written = Some sheets,
      printed = Successfully_converted xml_file xlsx_file, returned = True\<rparr>"
    by (simp add: assms parse_excel_xml_def)
  then show "written out \<noteq> None" and "printed out = Successfully_converted xml_file xlsx_file"
    and "returned out = True" by simp_all
qed

theorem no_data_outcome_witness:
  "parse_excel_xml py_int sample_float sample_str ''in.xml'' ''out.xlsx''
     [\<lparr>ws_name = Some ''Empty'', ws_table = None\<rparr>,
      \<lparr>ws_name = Some ''Head'', ws_table = Some [[plain_cell ''String'' ''Name'']]\<rparr>]
   = \<lparr>written = None, printed = No_data_found ''in.xml'', returned = False\<rparr>"
proof -
  have n: "normalize_table py_int sample_float [[plain_cell ''String'' ''Name'']] = Inr [[Str ''Name'']]"
    by (simp add: run_defs)
  have h: "\<forall>ws\<in>set [\<lparr>ws_name = Some ''Empty'', ws_table = None\<rparr>,
      \<lparr>ws_name = Some ''Head'', ws_table = Some [[plain_cell ''String'' ''Name'']]\<rparr>].
     \<forall>t. ws_table ws = Some t \<longrightarrow>
       (\<exists>rows. normalize_table py_int sample_float t = Inr rows \<and> length rows < 2)"
    by (simp add: n)
  from no_data_outcome[OF refl, of py_int sample_float sample_str "''in.xml''" "''out.xlsx''"
      "[\<lparr>ws_name = Some ''Empty'', ws_table = None\<rparr>,
      \<lparr>ws_name = Some ''Head'', ws_table = Some [[plain_cell ''String'' ''Name'']]\<rparr>]"] h
  show ?thesis by blast
qed

end
